theory Spec2Isabelle
  imports Complex_Main "HOL-Library.Multiset"
begin

section \<open>Mythic Runes: the round engine\<close>

text \<open>
  The development embeds the round engine of the game: the configuration object
  \<open>GAME_CONFIG\<close>, the helpers of the class \<open>Utils\<close>, the classes \<open>GameState\<close>,
  \<open>Dictionary\<close>, \<open>LetterGenerator\<close> and \<open>GameTimer\<close> of \<open>js/game.js\<close>, and the methods
  \<open>handleSubmitWord\<close>, \<open>startGame\<close>, \<open>shuffleLetters\<close> and \<open>preloadDictionary\<close> of the
  class \<open>MythicRunesGame\<close>.

  Conventions. In the game a JavaScript string is a \<open>string\<close>: its characters are the
  code points below U+0100, which hold the alphabets of the configuration and every
  sanitised word. \<open>canFormWord\<close> is defined for strings over any type of code points. A
  JavaScript \<open>Set\<close> of strings is the list of its elements in insertion order. A
  JavaScript number that counts seconds is a rational number, and the arithmetic on it
  is exact, as that of JavaScript is on whole numbers up to \<open>2^53 - 1\<close>. \<open>Date.now()\<close> and
  \<open>Math.random()\<close> are inputs of the operations that read them. Calls into the logger,
  the audio and the DOM change no state of the engine; the calls that show a word in
  one of the two on-screen lists are returned by the submission handler.
\<close>

subsection \<open>JavaScript helpers\<close>

text \<open>\<open>String.prototype.toLowerCase\<close> on strings of code points below U+0100. There it
  acts on each code point alone: the capital letters are U+0041 to U+005A, U+00C0 to
  U+00D6 and U+00D8 to U+00DE, and the small letter of each is 32 places further.\<close>

definition toLowerCase_char :: "char \<Rightarrow> char" where
  "toLowerCase_char c =
     (let n = (of_char c :: nat)
      in if (65 \<le> n \<and> n \<le> 90) \<or> (192 \<le> n \<and> n \<le> 214) \<or> (216 \<le> n \<and> n \<le> 222)
         then char_of (n + 32) else c)"

definition toLowerCase :: "string \<Rightarrow> string" where
  "toLowerCase s = map toLowerCase_char s"

text \<open>\<open>Set.prototype.add\<close> and \<open>new Set(iterable)\<close>: first insertion fixes the position.\<close>

definition Set_add :: "'a \<Rightarrow> 'a list \<Rightarrow> 'a list" where
  "Set_add x s = (if x \<in> set s then s else s @ [x])"

definition Set_new :: "'a list \<Rightarrow> 'a list" where
  "Set_new xs = foldl (\<lambda>s x. Set_add x s) [] xs"

definition Set_has :: "'a list \<Rightarrow> 'a \<Rightarrow> bool" where
  "Set_has s x = (x \<in> set s)"

text \<open>The operator \<open>a || b\<close> on numbers that may be \<open>undefined\<close> (\<open>None\<close>):
  \<open>undefined\<close> and \<open>0\<close> are falsy.\<close>

definition js_or :: "nat option \<Rightarrow> nat option \<Rightarrow> nat option" where
  "js_or a b = (case a of None \<Rightarrow> b | Some v \<Rightarrow> if v = 0 then b else Some v)"

subsection \<open>GAME_CONFIG\<close>

definition DURATION_SECONDS :: rat where "DURATION_SECONDS = 120"
definition NUM_LETTERS :: nat where "NUM_LETTERS = 10"
definition MIN_WORD_LENGTH :: nat where "MIN_WORD_LENGTH = 2"
definition MAX_WORD_LENGTH :: nat where "MAX_WORD_LENGTH = 20"
definition VOWEL_POOL :: string where "VOWEL_POOL = ''AEIOU''"
definition CONSONANT_POOL :: string where
  "CONSONANT_POOL = ''BBCCDDDFFGGHHJJKKLLMMNNPPQQRRSSTTTVVWWXXYYZZ''"

text \<open>The object \<open>SCORING\<close>: a key that is absent reads as \<open>undefined\<close>.\<close>

definition SCORING :: "nat \<Rightarrow> nat option" where
  "SCORING = map_of [(2, 1), (3, 2), (4, 3), (5, 5), (6, 8), (7, 12), (8, 20)]"

definition DICTIONARY_MAX_AGE :: int where
  "DICTIONARY_MAX_AGE = 7 * 24 * 60 * 60 * 1000"

subsection \<open>GameState\<close>

record GameState =
  currentLetters :: "char list"
  foundWords :: "string list"
  invalidWords :: "string list"
  score :: nat
  timeLeft :: rat
  isActive :: bool
  selectedCharacter :: "string option"
  characterImagePath :: "string option"
  gameStartTime :: "int option"
  gameEndTime :: "int option"

definition reset :: GameState where
  "reset = \<lparr> currentLetters = [], foundWords = [], invalidWords = [], score = 0,
             timeLeft = DURATION_SECONDS, isActive = False, selectedCharacter = None,
             characterImagePath = None, gameStartTime = None, gameEndTime = None \<rparr>"

text \<open>\<open>SCORING[length] || SCORING[8]\<close>. The table is frozen and has the key 8, so the
  value is a number (lemma \<open>calculateWordScore_defined\<close>); the last case is never taken.\<close>

definition calculateWordScore :: "string \<Rightarrow> nat" where
  "calculateWordScore word =
     (let len = length word in
      case js_or (SCORING len) (SCORING 8) of Some points \<Rightarrow> points | None \<Rightarrow> 0)"

definition addFoundWord :: "string \<Rightarrow> GameState \<Rightarrow> GameState" where
  "addFoundWord word gs =
     gs\<lparr> foundWords := Set_add word (foundWords gs),
         score := score gs + calculateWordScore word \<rparr>"

definition addInvalidWord :: "string \<Rightarrow> GameState \<Rightarrow> GameState" where
  "addInvalidWord word gs = gs\<lparr> invalidWords := Set_add word (invalidWords gs) \<rparr>"

definition hasFoundWord :: "GameState \<Rightarrow> string \<Rightarrow> bool" where
  "hasFoundWord gs word = Set_has (foundWords gs) word"

definition hasInvalidWord :: "GameState \<Rightarrow> string \<Rightarrow> bool" where
  "hasInvalidWord gs word = Set_has (invalidWords gs) word"

text \<open>\<open>startGame\<close> and \<open>endGame\<close> read the clock; \<open>now\<close> is the value of \<open>Date.now()\<close>.\<close>

definition startGame :: "int \<Rightarrow> GameState \<Rightarrow> GameState" where
  "startGame now gs = gs\<lparr> isActive := True, gameStartTime := Some now \<rparr>"

definition endGame :: "int \<Rightarrow> GameState \<Rightarrow> GameState" where
  "endGame now gs = gs\<lparr> isActive := False, gameEndTime := Some now \<rparr>"

subsection \<open>Utils\<close>

text \<open>\<open>trim\<close> removes white space and line terminators at both ends; below U+0100 these
  are tab, line feed, vertical tab, form feed, carriage return, space and the no-break
  space U+00A0.\<close>

definition isWhiteSpace :: "char \<Rightarrow> bool" where
  "isWhiteSpace c =
     (let n = (of_char c :: nat) in (9 \<le> n \<and> n \<le> 13) \<or> n = 32 \<or> n = 160)"

definition trim :: "string \<Rightarrow> string" where
  "trim s = rev (dropWhile isWhiteSpace (rev (dropWhile isWhiteSpace s)))"

definition isLowerLetter :: "char \<Rightarrow> bool" where
  "isLowerLetter c = (let n = (of_char c :: nat) in 97 \<le> n \<and> n \<le> 122)"

definition isLetter :: "char \<Rightarrow> bool" where
  "isLetter c = (let n = (of_char c :: nat) in (97 \<le> n \<and> n \<le> 122) \<or> (65 \<le> n \<and> n \<le> 90))"

text \<open>\<open>input.trim().toLowerCase().replace(/[^a-z]/g, '').slice(0, MAX_WORD_LENGTH)\<close>\<close>

definition sanitizeInput :: "string \<Rightarrow> string" where
  "sanitizeInput input =
     take MAX_WORD_LENGTH (filter isLowerLetter (toLowerCase (trim input)))"

text \<open>The last line tests the input against \<open>/^[a-zA-Z]+$/\<close>.\<close>

definition isValidInput :: "string \<Rightarrow> bool" where
  "isValidInput input =
     (if length input < MIN_WORD_LENGTH then False
      else if length input > MAX_WORD_LENGTH then False
      else input \<noteq> [] \<and> list_all isLetter input)"

text \<open>\<open>Math.floor(Math.random() * n)\<close>, where \<open>r\<close> is the value of \<open>Math.random()\<close>. A
  double is a rational number; the product is taken exactly.\<close>

definition randomIndex :: "rat \<Rightarrow> nat \<Rightarrow> nat" where
  "randomIndex r n = nat \<lfloor>r * of_nat n\<rfloor>"

text \<open>\<open>shuffleArray\<close>: the loop \<open>for (i = length - 1; i > 0; i--)\<close> with the swap
  \<open>[a[i], a[j]] = [a[j], a[i]]\<close>. The values of \<open>Math.random()\<close> are \<open>rnd k\<close>,
  \<open>rnd (k + 1)\<close>, ... in the order of the calls.\<close>

fun shuffleLoop :: "(nat \<Rightarrow> rat) \<Rightarrow> nat \<Rightarrow> nat \<Rightarrow> 'a list \<Rightarrow> 'a list" where
  "shuffleLoop rnd k 0 shuffled = shuffled"
| "shuffleLoop rnd k (Suc i') shuffled =
     (let i = Suc i';
          j = randomIndex (rnd k) (i + 1)
      in shuffleLoop rnd (Suc k) i' (shuffled[i := shuffled ! j, j := shuffled ! i]))"

definition shuffleArray :: "(nat \<Rightarrow> rat) \<Rightarrow> nat \<Rightarrow> 'a list \<Rightarrow> 'a list" where
  "shuffleArray rnd k array = shuffleLoop rnd k (length array - 1) array"

subsection \<open>LetterGenerator\<close>

text \<open>The two loops of \<open>generate\<close> push \<open>n\<close> letters of a pool, each at a random index.\<close>

fun pushLetters :: "string \<Rightarrow> (nat \<Rightarrow> rat) \<Rightarrow> nat \<Rightarrow> nat \<Rightarrow> char list \<Rightarrow> char list" where
  "pushLetters pool rnd k 0 letters = letters"
| "pushLetters pool rnd k (Suc n) letters =
     (let randomIndex = randomIndex (rnd k) (length pool)
      in pushLetters pool rnd (Suc k) n (letters @ [pool ! randomIndex]))"

definition generate :: "(nat \<Rightarrow> rat) \<Rightarrow> char list" where
  "generate rnd =
     (let letters = [];
          numVowels = 4;
          numConsonants = NUM_LETTERS - numVowels;
          letters = pushLetters VOWEL_POOL rnd 0 numVowels letters;
          letters = pushLetters CONSONANT_POOL rnd numVowels numConsonants letters
      in shuffleArray rnd (numVowels + numConsonants) letters)"

text \<open>\<open>canFormWord\<close>. A string is a list of code points of any type \<open>'c\<close>, and the
  built-in \<open>String.prototype.toLowerCase\<close> on such strings is the parameter \<open>lower\<close>.
  \<open>availableLetters\<close> is an array of strings, and \<open>forEach\<close> lower-cases each of them on
  its own; the object \<open>letterCounts\<close> is a map from strings (its keys) to counts. The
  word is lower-cased as a whole, and \<open>for (const char of ...)\<close> runs through its code
  points, each of them a string of one code point.\<close>

fun countLetters ::
  "('c list \<Rightarrow> 'c list) \<Rightarrow> 'c list list \<Rightarrow> ('c list \<rightharpoonup> nat) \<Rightarrow> ('c list \<rightharpoonup> nat)" where
  "countLetters lower [] letterCounts = letterCounts"
| "countLetters lower (char # rest) letterCounts =
     (let lowerChar = lower char
      in countLetters lower rest
           (letterCounts(lowerChar \<mapsto>
              (case letterCounts lowerChar of None \<Rightarrow> 0 | Some n \<Rightarrow> n) + 1)))"

fun useLetters :: "'c list \<Rightarrow> ('c list \<rightharpoonup> nat) \<Rightarrow> bool" where
  "useLetters [] letterCounts = True"
| "useLetters (char # rest) letterCounts =
     (case letterCounts [char] of
        None \<Rightarrow> False
      | Some n \<Rightarrow>
          if n = 0 then False else useLetters rest (letterCounts([char] \<mapsto> n - 1)))"

definition canFormWord :: "('c list \<Rightarrow> 'c list) \<Rightarrow> 'c list \<Rightarrow> 'c list list \<Rightarrow> bool" where
  "canFormWord lower word availableLetters =
     useLetters (lower word) (countLetters lower availableLetters Map.empty)"

text \<open>The count that \<open>letterCounts\<close> holds for a key (\<open>undefined\<close> counts as 0).\<close>

definition letterCount :: "('k \<rightharpoonup> nat) \<Rightarrow> 'k \<Rightarrow> nat" where
  "letterCount letterCounts k = (case letterCounts k of None \<Rightarrow> 0 | Some n \<Rightarrow> n)"

text \<open>The test that the specification asks of \<open>canFormWord\<close>, in its words: for every letter
  of the word, the letters of the word that equal it up to case are at most as many as
  the letters of the pool that equal it up to case. Two letters are equal up to case
  when their lower-casings are equal.\<close>

definition lettersSuffice :: "('c list \<Rightarrow> 'c list) \<Rightarrow> 'c list \<Rightarrow> 'c list \<Rightarrow> bool" where
  "lettersSuffice lower word letters =
     list_all
       (\<lambda>l. length (filter (\<lambda>x. lower [x] = lower [l]) word)
              \<le> length (filter (\<lambda>x. lower [x] = lower [l]) letters))
       word"

text \<open>Code points beyond U+00FF: the capital letter I with dot above, U+0130, and the
  combining dot above, U+0307. \<open>String.prototype.toLowerCase\<close> on strings over the code
  points below U+0100 and these two follows the Unicode default case conversion, as
  ECMAScript prescribes: U+0130 becomes the two code points U+0069 U+0307, and U+0307
  has no case.\<close>

datatype code_point = Below256 char | CapitalIWithDot | CombiningDot

fun toLowerCase_code_point :: "code_point \<Rightarrow> code_point list" where
  "toLowerCase_code_point (Below256 c) = [Below256 (toLowerCase_char c)]"
| "toLowerCase_code_point CapitalIWithDot = [Below256 (CHR ''i''), CombiningDot]"
| "toLowerCase_code_point CombiningDot = [CombiningDot]"

definition toLowerCase_wide :: "code_point list \<Rightarrow> code_point list" where
  "toLowerCase_wide s = concat (map toLowerCase_code_point s)"

subsection \<open>Dictionary\<close>

datatype js_error = FetchError | HttpError nat | BodyError

datatype level = debug | info | warn | error

record Dictionary =
  words :: "string list"
  isLoaded :: bool
  loadPromise :: "(js_error + unit) option"
  retryCount :: nat

definition Dictionary_new :: Dictionary where
  "Dictionary_new = \<lparr> words = [], isLoaded = False, loadPromise = None, retryCount = 0 \<rparr>"

text \<open>What the load reads from outside: the clock at the cache check and at the cache
  write, the outcome of \<open>fetch('words.txt')\<close> (a rejection, or a response with its \<open>ok\<close>
  flag, its status and its body text, \<open>None\<close> when reading the body rejects) and whether
  \<open>Storage.set\<close> succeeds.\<close>

datatype fetch_outcome = FetchRejected | FetchResponse bool nat "string option"

record load_env =
  nowAtCheck :: int
  nowAtSave :: int
  fetched :: fetch_outcome
  storeWritable :: bool

text \<open>The dictionary, the entry \<open>{words, timestamp}\<close> stored under
  \<open>STORAGE_KEYS.DICTIONARY\<close> (\<open>None\<close>: no entry, or one that is not of this shape) and the
  calls that the methods of \<open>Dictionary\<close> and \<open>MythicRunesGame\<close> make to the logger, each
  with its level and the fixed part of its message. (With \<open>DEBUG.ENABLED\<close> false, as
  configured, the logger prints none of them.)\<close>

record world =
  dictionary :: Dictionary
  cacheEntry :: "(string list \<times> int) option"
  logged :: "(level \<times> string) list"

definition Logger :: "level \<Rightarrow> string \<Rightarrow> world \<Rightarrow> world" where
  "Logger lv message w = w\<lparr> logged := logged w @ [(lv, message)] \<rparr>"

fun split_lines :: "string \<Rightarrow> string list" where
  "split_lines [] = [[]]"
| "split_lines (c # cs) =
     (if c = CHR 0x0A then [] # split_lines cs
      else case split_lines cs of [] \<Rightarrow> [[c]] | l # ls \<Rightarrow> (c # l) # ls)"

definition fallbackWords :: "string list" where
  "fallbackWords =
     [''cat'', ''dog'', ''house'', ''tree'', ''run'', ''jump'', ''play'', ''game'', ''word'',
      ''letter'', ''apple'', ''banana'', ''orange'', ''computer'', ''keyboard'', ''mouse'',
      ''ocean'', ''mountain'', ''elephant'', ''giraffe'', ''happiness'', ''freedom'',
      ''courage'', ''justice'', ''wisdom'', ''viking'', ''valkyrie'', ''norse'', ''rune'',
      ''myth'', ''legend'', ''hero'', ''battle'', ''sword'', ''shield'', ''dragon'', ''wolf'',
      ''bear'', ''eagle'', ''storm'', ''thunder'', ''lightning'', ''fire'', ''ice'', ''wind'',
      ''earth'', ''water'', ''magic'', ''spell'', ''quest'', ''adventure'']"

definition loadFallbackDictionary :: "world \<Rightarrow> world" where
  "loadFallbackDictionary w =
     Logger info ''Using fallback dictionary''
       (w\<lparr> dictionary := (dictionary w)\<lparr> words := Set_new fallbackWords, isLoaded := True \<rparr> \<rparr>)"

text \<open>\<open>_loadFromCache\<close> returns the cached set or \<open>null\<close>; an expired entry is removed.\<close>

definition loadFromCache :: "load_env \<Rightarrow> world \<Rightarrow> string list option \<times> world" where
  "loadFromCache env w =
     (case cacheEntry w of
        None \<Rightarrow> (None, w)
      | Some (cachedWords, timestamp) \<Rightarrow>
          if timestamp \<noteq> 0 then
            (let cacheAge = nowAtCheck env - timestamp
             in if cacheAge < DICTIONARY_MAX_AGE then (Some (Set_new cachedWords), w)
                else (None, (Logger debug ''Dictionary cache expired'' w)\<lparr> cacheEntry := None \<rparr>))
          else (None, w))"

text \<open>\<open>_saveToCache\<close>: \<open>Storage.set\<close> catches its own errors and returns, so the message is
  logged whether or not the entry was written.\<close>

definition saveToCache :: "load_env \<Rightarrow> world \<Rightarrow> world" where
  "saveToCache env w =
     Logger debug ''Dictionary cached successfully''
       (if storeWritable env
        then w\<lparr> cacheEntry := Some (words (dictionary w), nowAtSave env) \<rparr>
        else w)"

definition loadFromNetwork :: "load_env \<Rightarrow> world \<Rightarrow> (js_error + unit) \<times> world" where
  "loadFromNetwork env w0 =
     (let w = Logger debug ''Loading dictionary from network'' w0;
          throw = (\<lambda>e. (Inl e, Logger warn ''Dictionary load from network failed:'' w))
      in case fetched env of
           FetchRejected \<Rightarrow> throw FetchError
         | FetchResponse ok status body \<Rightarrow>
             if \<not> ok then throw (HttpError status)
             else (case body of
                     None \<Rightarrow> throw BodyError
                   | Some text \<Rightarrow>
                       (let wordsArray =
                              filter (\<lambda>word. length word \<ge> MIN_WORD_LENGTH)
                                (map (\<lambda>word. toLowerCase (trim word)) (split_lines text));
                            w = w\<lparr> dictionary :=
                                    (dictionary w)\<lparr> words := Set_new wordsArray, isLoaded := True \<rparr> \<rparr>;
                            w = saveToCache env w
                        in (Inr (), Logger info ''Dictionary loaded from network'' w))))"

text \<open>\<open>_loadDictionary\<close>: the \<open>catch\<close> block logs, loads the fallback list and rethrows.\<close>

definition loadDictionary :: "load_env \<Rightarrow> world \<Rightarrow> (js_error + unit) \<times> world" where
  "loadDictionary env w0 =
     (case loadFromCache env w0 of
        (Some cached, w) \<Rightarrow>
          (Inr (), Logger info ''Dictionary loaded from cache''
                     (w\<lparr> dictionary := (dictionary w)\<lparr> words := cached, isLoaded := True \<rparr> \<rparr>))
      | (None, w) \<Rightarrow>
          (case loadFromNetwork env w of
             (Inr u, w) \<Rightarrow> (Inr u, w)
           | (Inl e, w) \<Rightarrow>
               (Inl e, loadFallbackDictionary (Logger error ''Error loading dictionary:'' w))))"

text \<open>\<open>load\<close> memoises the promise of the first call; the promise is represented by the
  outcome it settles with (\<open>Inl\<close>: rejected with the error, \<open>Inr\<close>: fulfilled).\<close>

definition load :: "load_env \<Rightarrow> world \<Rightarrow> (js_error + unit) \<times> world" where
  "load env w =
     (case loadPromise (dictionary w) of
        Some outcome \<Rightarrow> (outcome, w)
      | None \<Rightarrow>
          (case loadDictionary env w of
             (outcome, w) \<Rightarrow>
               (outcome, w\<lparr> dictionary := (dictionary w)\<lparr> loadPromise := Some outcome \<rparr> \<rparr>)))"

text \<open>The caller \<open>MythicRunesGame.preloadDictionary\<close> awaits \<open>load\<close> in a \<open>try\<close> block.\<close>

definition preloadDictionary :: "load_env \<Rightarrow> world \<Rightarrow> world" where
  "preloadDictionary env w0 =
     (case load env w0 of
        (Inr u, w) \<Rightarrow> Logger info ''Dictionary preloaded successfully'' w
      | (Inl e, w) \<Rightarrow>
          loadFallbackDictionary
            (Logger warn ''Dictionary preload failed, using fallback dictionary:'' w))"

definition hasWord :: "Dictionary \<Rightarrow> string \<Rightarrow> bool" where
  "hasWord d word = Set_has (words d) (toLowerCase word)"

subsection \<open>MythicRunesGame.handleSubmitWord\<close>

datatype outcome =
  NotActive | NoInputElement | TooShort | AlreadyFound | AlreadyInvalid
  | CannotForm | NotInDictionary | WordValid nat

text \<open>The calls \<open>uiManager.addInvalidWord\<close> and \<open>uiManager.addFoundWord\<close>, which prepend
  the word to a list element of the page.\<close>

datatype ui_call = UiAddInvalidWord string | UiAddFoundWord string

text \<open>\<open>wordInput\<close> is the value of the input element, \<open>None\<close> when the page has none. The
  current letters are passed to \<open>canFormWord\<close> as strings of one character each.\<close>

definition handleSubmitWord ::
  "Dictionary \<Rightarrow> string option \<Rightarrow> GameState \<Rightarrow> outcome \<times> ui_call list \<times> GameState" where
  "handleSubmitWord dict wordInput gs =
     (if \<not> isActive gs then (NotActive, [], gs)
      else case wordInput of
        None \<Rightarrow> (NoInputElement, [], gs)
      | Some val \<Rightarrow>
          (let word = sanitizeInput val in
           if \<not> isValidInput word then (TooShort, [UiAddInvalidWord word], gs)
           else if hasFoundWord gs word then (AlreadyFound, [UiAddInvalidWord word], gs)
           else if hasInvalidWord gs word then (AlreadyInvalid, [], gs)
           else if \<not> canFormWord toLowerCase word (map (\<lambda>c. [c]) (currentLetters gs))
             then (CannotForm, [UiAddInvalidWord word], addInvalidWord word gs)
           else if hasWord dict word
             then (let points = calculateWordScore word
                   in (WordValid points, [UiAddFoundWord word], addFoundWord word gs))
           else (NotInDictionary, [UiAddInvalidWord word], addInvalidWord word gs)))"

text \<open>The operations that reach a round state: the constructor and \<open>newGame\<close> reset it;
  \<open>MythicRunesGame.startGame\<close> resets it, keeps no character (so selects \<open>viking\<close>),
  stores the generated letters and starts the round; \<open>shuffleLetters\<close> replaces the
  letters while the round is active; the timer's callbacks store the time and end the
  round; a submission runs \<open>handleSubmitWord\<close> with the dictionary of that moment.\<close>

datatype round_event =
  Reset
  | SelectCharacter string string
  | GameStart "nat \<Rightarrow> rat" int
  | StateStartGame int
  | Shuffle "nat \<Rightarrow> rat"
  | TimerTick rat
  | EndGame int
  | Submit Dictionary "string option"

definition game_startGame :: "(nat \<Rightarrow> rat) \<Rightarrow> int \<Rightarrow> GameState \<Rightarrow> GameState" where
  "game_startGame rnd now gs0 =
     (let gs = reset;
          gs = gs\<lparr> selectedCharacter := Some ''viking'' \<rparr>;
          gs = gs\<lparr> characterImagePath := Some ''viking.png'' \<rparr>;
          gs = gs\<lparr> currentLetters := generate rnd \<rparr>
      in startGame now gs)"

definition shuffleLetters :: "(nat \<Rightarrow> rat) \<Rightarrow> GameState \<Rightarrow> GameState" where
  "shuffleLetters rnd gs =
     (if \<not> isActive gs then gs
      else gs\<lparr> currentLetters := shuffleArray rnd 0 (currentLetters gs) \<rparr>)"

fun round_step :: "GameState \<Rightarrow> round_event \<Rightarrow> GameState" where
  "round_step gs Reset = reset"
| "round_step gs (SelectCharacter character imagePath) =
     gs\<lparr> selectedCharacter := Some character, characterImagePath := Some imagePath \<rparr>"
| "round_step gs (GameStart rnd now) = game_startGame rnd now gs"
| "round_step gs (StateStartGame now) = startGame now gs"
| "round_step gs (Shuffle rnd) = shuffleLetters rnd gs"
| "round_step gs (TimerTick t) = gs\<lparr> timeLeft := t \<rparr>"
| "round_step gs (EndGame now) = endGame now gs"
| "round_step gs (Submit dict wordInput) = snd (snd (handleSubmitWord dict wordInput gs))"

definition round_run :: "round_event list \<Rightarrow> GameState" where
  "round_run evs = foldl round_step reset evs"

subsection \<open>GameTimer\<close>

text \<open>The callbacks \<open>onTick\<close> and \<open>onComplete\<close> are recorded, in the order of the calls, in
  \<open>calls\<close>; they do not call back into the timer (those of \<open>MythicRunesGame\<close> store the
  time and end the round). \<open>interval\<close> is \<open>None\<close> for \<open>null\<close> and \<open>Some ()\<close> for the handle
  of the running interval. The field \<open>timeLeft\<close> of the timer is \<open>timerTimeLeft\<close> here,
  \<open>timeLeft\<close> being the field of \<open>GameState\<close>. Durations and amounts of seconds are
  numbers that nothing validates, so they are rationals and need not be whole.\<close>

datatype callback = OnTick rat | OnComplete

record GameTimer =
  interval :: "unit option"
  timerTimeLeft :: rat
  isPaused :: bool
  calls :: "callback list"

definition GameTimer_new :: GameTimer where
  "GameTimer_new = \<lparr> interval = None, timerTimeLeft = 0, isPaused = False, calls = [] \<rparr>"

definition stop :: "GameTimer \<Rightarrow> GameTimer" where
  "stop t = (if interval t \<noteq> None then t\<lparr> interval := None \<rparr> else t)"

definition start :: "rat \<Rightarrow> GameTimer \<Rightarrow> GameTimer" where
  "start duration t =
     (stop t)\<lparr> timerTimeLeft := duration, isPaused := False, interval := Some () \<rparr>"

definition pause :: "GameTimer \<Rightarrow> GameTimer" where
  "pause t = t\<lparr> isPaused := True \<rparr>"

definition resume :: "GameTimer \<Rightarrow> GameTimer" where
  "resume t = t\<lparr> isPaused := False \<rparr>"

definition getTimeLeft :: "GameTimer \<Rightarrow> rat" where
  "getTimeLeft t = timerTimeLeft t"

definition addTime :: "rat \<Rightarrow> GameTimer \<Rightarrow> GameTimer" where
  "addTime seconds t = t\<lparr> timerTimeLeft := timerTimeLeft t + seconds \<rparr>"

text \<open>The function passed to \<open>setInterval\<close>. It runs once per second while the interval
  is set; after \<open>clearInterval\<close> it runs no more.\<close>

definition intervalFires :: "GameTimer \<Rightarrow> GameTimer" where
  "intervalFires t =
     (if interval t = None then t
      else if \<not> isPaused t then
        (let t = t\<lparr> timerTimeLeft := timerTimeLeft t - 1 \<rparr>;
             t = t\<lparr> calls := calls t @ [OnTick (timerTimeLeft t)] \<rparr>
         in if timerTimeLeft t \<le> 0
            then (let t = stop t in t\<lparr> calls := calls t @ [OnComplete] \<rparr>)
            else t)
      else t)"

datatype timer_event = Start rat | Stop | Pause | Resume | AddTime rat | Second

fun timer_step :: "GameTimer \<Rightarrow> timer_event \<Rightarrow> GameTimer" where
  "timer_step t (Start duration) = start duration t"
| "timer_step t Stop = stop t"
| "timer_step t Pause = pause t"
| "timer_step t Resume = resume t"
| "timer_step t (AddTime seconds) = addTime seconds t"
| "timer_step t Second = intervalFires t"

definition timer_run :: "GameTimer \<Rightarrow> timer_event list \<Rightarrow> GameTimer" where
  "timer_run t evs = foldl timer_step t evs"

subsection \<open>The invariant of a round, and a round used as an example\<close>

text \<open>The found words are a set (no word twice), the score is the sum of their scores,
  and no found word is among the invalid words.\<close>

definition round_inv :: "GameState \<Rightarrow> bool" where
  "round_inv gs \<longleftrightarrow>
     distinct (foundWords gs)
     \<and> score gs = sum_list (map calculateWordScore (foundWords gs))
     \<and> set (foundWords gs) \<inter> set (invalidWords gs) = {}"

definition demoDictionary :: Dictionary where
  "demoDictionary =
     \<lparr> words = [''in'', ''inn''], isLoaded = True, loadPromise = Some (Inr ()), retryCount = 0 \<rparr>"

text \<open>With every random value equal to 1/2 the letters are \<open>ININININNN\<close>.\<close>

definition demoRound :: "round_event list" where
  "demoRound =
     [GameStart (\<lambda>k. 1 / 2) 1000,
      Submit demoDictionary (Some ''Inn''),
      Submit demoDictionary (Some ''zz''),
      Submit demoDictionary (Some '' in ''),
      Submit demoDictionary (Some ''nn''),
      Submit demoDictionary (Some ''inn'')]"

definition demoState :: GameState where
  "demoState =
     \<lparr> currentLetters = ''ININININNN'', foundWords = [''inn'', ''in''],
       invalidWords = [''zz'', ''nn''], score = 3, timeLeft = 120, isActive = True,
       selectedCharacter = Some ''viking'', characterImagePath = Some ''viking.png'',
       gameStartTime = Some 1000, gameEndTime = None \<rparr>"

subsection \<open>Timer events used in the statements\<close>

text \<open>The largest whole number up to which JavaScript's arithmetic on whole numbers is
  exact, \<open>Number.MAX_SAFE_INTEGER = 2^53 - 1\<close>.\<close>

definition MAX_SAFE_INTEGER :: rat where
  "MAX_SAFE_INTEGER = 9007199254740991"

definition isWholeNumber :: "rat \<Rightarrow> bool" where
  "isWholeNumber x = (of_int \<lfloor>x\<rfloor> = x)"

text \<open>An event is admissible in a state of the clock when a start has a whole number of
  seconds from 1 to \<open>MAX_SAFE_INTEGER\<close>, and when \<open>addTime\<close> adds a whole number of seconds
  that is not negative and leaves the remaining value at most \<open>MAX_SAFE_INTEGER\<close>. A
  sequence of events is admissible when each event is, in the state it meets.\<close>

fun admissible :: "GameTimer \<Rightarrow> timer_event \<Rightarrow> bool" where
  "admissible t (Start duration) =
     (isWholeNumber duration \<and> 1 \<le> duration \<and> duration \<le> MAX_SAFE_INTEGER)"
| "admissible t (AddTime seconds) =
     (isWholeNumber seconds \<and> 0 \<le> seconds \<and> timerTimeLeft t + seconds \<le> MAX_SAFE_INTEGER)"
| "admissible t ev = True"

fun admissibleRun :: "GameTimer \<Rightarrow> timer_event list \<Rightarrow> bool" where
  "admissibleRun t [] = True"
| "admissibleRun t (ev # evs) = (admissible t ev \<and> admissibleRun (timer_step t ev) evs)"

fun isStart :: "timer_event \<Rightarrow> bool" where
  "isStart (Start duration) = True"
| "isStart ev = False"

fun tickNonNegative :: "callback \<Rightarrow> bool" where
  "tickNonNegative (OnTick n) = (0 \<le> n)"
| "tickNonNegative OnComplete = True"

text \<open>The invariant of a clock under admissible events.\<close>

definition timer_inv :: "GameTimer \<Rightarrow> bool" where
  "timer_inv t \<longleftrightarrow>
     isWholeNumber (timerTimeLeft t)
     \<and> 0 \<le> timerTimeLeft t \<and> timerTimeLeft t \<le> MAX_SAFE_INTEGER
     \<and> (interval t \<noteq> None \<longrightarrow> 1 \<le> timerTimeLeft t)
     \<and> list_all tickNonNegative (calls t)"

subsection \<open>A load without cache and without network, used as an example\<close>

definition offlineEnv :: load_env where
  "offlineEnv = \<lparr> nowAtCheck = 1000, nowAtSave = 1000, fetched = FetchRejected,
                   storeWritable = True \<rparr>"

definition freshWorld :: world where
  "freshWorld = \<lparr> dictionary = Dictionary_new, cacheEntry = None, logged = [] \<rparr>"

section \<open>Scoring\<close>

lemma SCORING_8: "SCORING 8 = Some 20"
  by (simp add: SCORING_def)

lemma SCORING_dom: "SCORING n \<noteq> None \<longleftrightarrow> 2 \<le> n \<and> n \<le> 8"
proof
  assume "SCORING n \<noteq> None"
  then have "n \<in> fst ` set [(2::nat, 1::nat), (3, 2), (4, 3), (5, 5), (6, 8), (7, 12), (8, 20)]"
    unfolding SCORING_def by (metis map_of_eq_None_iff)
  then show "2 \<le> n \<and> n \<le> 8" by auto
next
  assume "2 \<le> n \<and> n \<le> 8"
  then have "n = 2 \<or> n = 3 \<or> n = 4 \<or> n = 5 \<or> n = 6 \<or> n = 7 \<or> n = 8" by arith
  then show "SCORING n \<noteq> None" by (auto simp: SCORING_def)
qed

lemma calculateWordScore_defined:
  "\<exists>points. js_or (SCORING (length word)) (SCORING 8) = Some points"
  by (simp add: js_or_def SCORING_8 split: option.split)

lemma score_by_length:
  "calculateWordScore w =
     (if length w = 2 then 1 else if length w = 3 then 2 else if length w = 4 then 3
      else if length w = 5 then 5 else if length w = 6 then 8 else if length w = 7 then 12
      else 20)"
  by (simp add: calculateWordScore_def js_or_def SCORING_def)

lemma score_mono_nat:
  fixes a b :: nat
  assumes "2 \<le> a" "a \<le> b" "b \<le> 8"
  shows "(if a = 2 then 1 else if a = 3 then 2 else if a = 4 then 3
          else if a = 5 then 5 else if a = 6 then 8 else if a = 7 then 12 else 20)
       \<le> (if b = 2 then 1 else if b = 3 then 2 else if b = 4 then 3
          else if b = 5 then 5 else if b = 6 then 8 else if b = 7 then 12 else (20::nat))"
  using assms by auto

text \<open>
  Claim C7. The scoring function is total: \<open>SCORING[length] || SCORING[8]\<close> is a number
  for every word. For two words whose lengths lie between 2 and 8, the longer one scores
  at least as much as the shorter one, and a word longer than 8 letters scores what a
  word of exactly 8 letters scores.
\<close>

theorem scoring_monotone_plateau:
  "(\<exists>points. js_or (SCORING (length w)) (SCORING 8) = Some points)
   \<and> (2 \<le> length v \<and> length v \<le> length w \<and> length w \<le> 8
        \<longrightarrow> calculateWordScore v \<le> calculateWordScore w)
   \<and> (8 < length w \<and> length w8 = 8 \<longrightarrow> calculateWordScore w = calculateWordScore w8)"
proof (intro conjI impI)
  show "\<exists>points. js_or (SCORING (length w)) (SCORING 8) = Some points"
    by (rule calculateWordScore_defined)
next
  assume "2 \<le> length v \<and> length v \<le> length w \<and> length w \<le> 8"
  then show "calculateWordScore v \<le> calculateWordScore w"
    unfolding score_by_length by (intro score_mono_nat) simp_all
next
  assume "8 < length w \<and> length w8 = 8"
  then show "calculateWordScore w = calculateWordScore w8"
    by (simp add: score_by_length)
qed

theorem scoring_monotone_plateau_witness:
  "(2 \<le> length ''rune'' \<and> length ''rune'' \<le> length ''dragon'' \<and> length ''dragon'' \<le> 8)
   \<and> calculateWordScore ''rune'' \<le> calculateWordScore ''dragon''
   \<and> (8 < length ''happiness'' \<and> length ''elephant'' = 8)
   \<and> calculateWordScore ''happiness'' = calculateWordScore ''elephant''"
proof -
  have h1: "2 \<le> length ''rune'' \<and> length ''rune'' \<le> length ''dragon'' \<and> length ''dragon'' \<le> 8"
    by simp
  have h2: "8 < length ''happiness'' \<and> length ''elephant'' = 8"
    by simp
  from scoring_monotone_plateau [of "''dragon''" "''rune''"] h1
  have c1: "calculateWordScore ''rune'' \<le> calculateWordScore ''dragon''"
    by blast
  from scoring_monotone_plateau [of "''happiness''" _ "''elephant''"] h2
  have c2: "calculateWordScore ''happiness'' = calculateWordScore ''elephant''"
    by blast
  from h1 h2 c1 c2 show ?thesis by blast
qed

text \<open>
  Claim C10. \<open>calculateWordScore\<close> is defined for every word length. The lengths without
  an entry in \<open>SCORING\<close> are exactly those below 2 and those above 8, and for each of them
  the result is the entry for length 8, which is 20; so the empty word and a word of one
  letter score 20.
\<close>

theorem score_without_entry:
  "(SCORING (length w) = None \<longleftrightarrow> length w < 2 \<or> 8 < length w)
   \<and> (SCORING (length w) = None \<longrightarrow> calculateWordScore w = 20)
   \<and> SCORING 8 = Some 20"
proof (intro conjI impI)
  show "SCORING (length w) = None \<longleftrightarrow> length w < 2 \<or> 8 < length w"
    using SCORING_dom [of "length w"] by auto
next
  assume "SCORING (length w) = None"
  then show "calculateWordScore w = 20"
    by (simp add: calculateWordScore_def js_or_def SCORING_8)
next
  show "SCORING 8 = Some 20" by (rule SCORING_8)
qed

theorem score_without_entry_witness:
  "SCORING (length []) = None \<and> calculateWordScore [] = 20
   \<and> SCORING (length ''a'') = None \<and> calculateWordScore ''a'' = 20"
proof -
  have h0: "SCORING (length []) = None" by (simp add: SCORING_def)
  have h1: "SCORING (length ''a'') = None" by (simp add: SCORING_def)
  from score_without_entry [of "[]"] h0 have c0: "calculateWordScore [] = 20" by blast
  from score_without_entry [of "''a''"] h1 have c1: "calculateWordScore ''a'' = 20" by blast
  from h0 h1 c0 c1 show ?thesis by blast
qed

section \<open>The end of a round\<close>

text \<open>
  Claim C2, as stated, fails: a second \<open>endGame\<close> at a later time replaces the end
  timestamp of the first. The round is started at time 0 and ended at 1000 and at 2000.
\<close>

theorem endGame_second_call_restamps:
  "gameEndTime (endGame 1000 (startGame 0 reset)) = Some 1000
   \<and> gameEndTime (endGame 2000 (endGame 1000 (startGame 0 reset))) = Some 2000"
  by (simp add: endGame_def)

text \<open>
  Claim C2, amended. \<open>endGame\<close> has no guard: every call, in an active round or not,
  clears \<open>isActive\<close> and stores the current time as the end timestamp. A second call
  therefore overwrites the timestamp of the first and keeps it only when the clock reads
  the same value; two calls in a row leave the state that the second call alone leaves.
\<close>

theorem endGame_stamps_every_call:
  "gameEndTime (endGame t gs) = Some t
   \<and> isActive (endGame t gs) = False
   \<and> endGame t2 (endGame t1 gs) = endGame t2 gs
   \<and> (gameEndTime (endGame t2 (endGame t1 gs)) = gameEndTime (endGame t1 gs) \<longleftrightarrow> t2 = t1)"
  by (simp add: endGame_def)

section \<open>Forming a word from the letters\<close>

lemma letterCount_upd:
  "letterCount (m(x \<mapsto> n)) k = (if k = x then n else letterCount m k)"
  by (simp add: letterCount_def)

lemma letterCount_countLetters:
  "letterCount (countLetters lower xs m) k = letterCount m k + count_list (map lower xs) k"
proof (induction xs arbitrary: m)
  case Nil
  show ?case by simp
next
  case (Cons x xs)
  have "countLetters lower (x # xs) m =
        countLetters lower xs (m(lower x \<mapsto> letterCount m (lower x) + 1))"
    by (simp add: Let_def letterCount_def)
  then have "letterCount (countLetters lower (x # xs) m) k =
        letterCount (m(lower x \<mapsto> letterCount m (lower x) + 1)) k
          + count_list (map lower xs) k"
    by (simp only: Cons.IH)
  then show ?case
    by (simp add: letterCount_upd)
qed

lemma useLetters_step:
  "useLetters (x # w) m \<longleftrightarrow>
     letterCount m [x] \<noteq> 0 \<and> useLetters w (m([x] \<mapsto> letterCount m [x] - 1))"
  by (auto simp: letterCount_def split: option.split)

lemma useLetters_iff:
  "useLetters w m \<longleftrightarrow> (\<forall>c. count_list w c \<le> letterCount m [c])"
proof (induction w arbitrary: m)
  case Nil
  show ?case by simp
next
  case (Cons x w)
  let ?m' = "m([x] \<mapsto> letterCount m [x] - 1)"
  have u: "letterCount ?m' [c] = (if c = x then letterCount m [x] - 1 else letterCount m [c])"
    for c
    by (simp add: letterCount_upd)
  have "(\<forall>c. count_list (x # w) c \<le> letterCount m [c]) \<longleftrightarrow>
        letterCount m [x] \<noteq> 0 \<and> (\<forall>c. count_list w c \<le> letterCount ?m' [c])"
    (is "?L \<longleftrightarrow> ?R")
  proof
    assume l: ?L
    then have "count_list (x # w) x \<le> letterCount m [x]" by blast
    then have p: "letterCount m [x] \<noteq> 0" by simp
    have "count_list w c \<le> letterCount ?m' [c]" for c
      using l [rule_format, of c] unfolding u by (cases "c = x") simp_all
    with p show ?R by blast
  next
    assume r: ?R
    show ?L
    proof
      fix c
      show "count_list (x # w) c \<le> letterCount m [c]"
        using r [THEN conjunct2, rule_format, of c] r [THEN conjunct1]
        unfolding u by (cases "c = x") simp_all
    qed
  qed
  then show ?case
    by (simp only: useLetters_step Cons.IH)
qed

text \<open>What \<open>canFormWord\<close> computes, whatever the lower-casing is.\<close>

lemma canFormWord_counts:
  "canFormWord lower word pool \<longleftrightarrow>
     (\<forall>c. count_list (lower word) c \<le> count_list (map lower pool) [c])"
proof -
  have "letterCount (countLetters lower pool Map.empty) k = count_list (map lower pool) k" for k
    unfolding letterCount_countLetters by (simp add: letterCount_def)
  then show ?thesis
    by (simp add: canFormWord_def useLetters_iff)
qed

lemma count_list_singletons:
  "count_list (map (\<lambda>c. [f c]) letters) [c] = count_list (map f letters) c"
  by (induction letters) simp_all

lemma count_list_map_filter:
  "count_list (map f xs) c = length (filter (\<lambda>x. f x = c) xs)"
  by (induction xs) simp_all

lemma canFormWord_letterwise:
  assumes "\<forall>s. lower s = map f s"
  shows "canFormWord lower word (map (\<lambda>c. [c]) letters) \<longleftrightarrow> lettersSuffice lower word letters"
proof -
  have p: "map lower (map (\<lambda>c. [c]) letters) = map (\<lambda>c. [f c]) letters"
    using assms by simp
  have "canFormWord lower word (map (\<lambda>c. [c]) letters) \<longleftrightarrow>
        (\<forall>c. count_list (map f word) c \<le> count_list (map f letters) c)"
    unfolding canFormWord_counts p count_list_singletons using assms by simp
  also have "\<dots> \<longleftrightarrow>
        (\<forall>c. length (filter (\<lambda>x. f x = c) word) \<le> length (filter (\<lambda>x. f x = c) letters))"
    by (simp only: count_list_map_filter)
  also have "\<dots> \<longleftrightarrow>
        (\<forall>l \<in> set word. length (filter (\<lambda>x. f x = f l) word)
                          \<le> length (filter (\<lambda>x. f x = f l) letters))"
    (is "?A \<longleftrightarrow> ?B")
  proof
    assume ?A
    then show ?B by blast
  next
    assume b: ?B
    show ?A
    proof
      fix c
      show "length (filter (\<lambda>x. f x = c) word) \<le> length (filter (\<lambda>x. f x = c) letters)"
      proof (cases "\<exists>l \<in> set word. f l = c")
        case True
        then obtain l where "l \<in> set word" "f l = c" by blast
        with b show ?thesis by blast
      next
        case False
        then have "filter (\<lambda>x. f x = c) word = []"
          by (simp add: filter_empty_conv)
        then show ?thesis by simp
      qed
    qed
  qed
  also have "\<dots> \<longleftrightarrow> lettersSuffice lower word letters"
    using assms by (simp add: lettersSuffice_def list_all_iff)
  finally show ?thesis .
qed

text \<open>
  Claim C3, as stated, fails. The word and the pool both consist of the one letter
  U+0130. Every letter of the word occurs in the pool as often as in the word, but
  \<open>canFormWord\<close> is false: the word, lower-cased, has the two code points U+0069 and
  U+0307, and the only key of \<open>letterCounts\<close> is the lower-cased pool letter, a string of
  two code points.
\<close>

theorem canFormWord_capital_I_with_dot:
  "lettersSuffice toLowerCase_wide [CapitalIWithDot] [CapitalIWithDot]
   \<and> \<not> canFormWord toLowerCase_wide [CapitalIWithDot] [[CapitalIWithDot]]"
  by (simp add: lettersSuffice_def canFormWord_def toLowerCase_wide_def)

text \<open>
  Claim C3, amended. \<open>canFormWord(word, pool)\<close> is true exactly when every code point of
  the lower-cased word occurs in it at most as often as the pool holds entries whose own
  lower-casing is that one code point. Where lower-casing acts letter by letter, which
  it does on all strings of code points below U+0100 and so on the ASCII letters of
  the configured alphabets and of every sanitised word, this is the test of the
  specification: true exactly when, for every letter, its occurrences in the word are
  at most its occurrences in the pool, compared case-insensitively; and the empty word
  can be formed from every pool.
\<close>

theorem canFormWord_characterised:
  "(canFormWord lower word pool \<longleftrightarrow>
      (\<forall>c. count_list (lower word) c \<le> count_list (map lower pool) [c]))
   \<and> ((\<forall>s. lower s = map f s) \<longrightarrow>
        (canFormWord lower word (map (\<lambda>c. [c]) letters) \<longleftrightarrow> lettersSuffice lower word letters)
        \<and> canFormWord lower [] pool)
   \<and> (canFormWord toLowerCase w (map (\<lambda>c. [c]) ls) \<longleftrightarrow> lettersSuffice toLowerCase w ls)
   \<and> (canFormWord toLowerCase w (map (\<lambda>c. [c]) ls) \<longleftrightarrow>
        (\<forall>c. count_list (toLowerCase w) c \<le> count_list (toLowerCase ls) c))
   \<and> canFormWord toLowerCase [] p"
proof (intro conjI impI)
  show "canFormWord lower word pool \<longleftrightarrow>
      (\<forall>c. count_list (lower word) c \<le> count_list (map lower pool) [c])"
    by (rule canFormWord_counts)
next
  assume a: "\<forall>s. lower s = map f s"
  show "canFormWord lower word (map (\<lambda>c. [c]) letters) \<longleftrightarrow> lettersSuffice lower word letters"
    by (rule canFormWord_letterwise [OF a])
  from a have "lower [] = []" by simp
  then show "canFormWord lower [] pool"
    by (simp add: canFormWord_def)
next
  have t: "\<forall>s. toLowerCase s = map toLowerCase_char s"
    by (simp add: toLowerCase_def)
  show "canFormWord toLowerCase w (map (\<lambda>c. [c]) ls) \<longleftrightarrow> lettersSuffice toLowerCase w ls"
    by (rule canFormWord_letterwise [OF t])
  have q: "count_list (map toLowerCase (map (\<lambda>c. [c]) ls)) [c] = count_list (toLowerCase ls) c"
    for c
  proof -
    have "map toLowerCase (map (\<lambda>c. [c]) ls) = map (\<lambda>c. [toLowerCase_char c]) ls"
      by (simp add: toLowerCase_def)
    then show ?thesis
      by (simp only: count_list_singletons toLowerCase_def)
  qed
  show "canFormWord toLowerCase w (map (\<lambda>c. [c]) ls) \<longleftrightarrow>
        (\<forall>c. count_list (toLowerCase w) c \<le> count_list (toLowerCase ls) c)"
    unfolding canFormWord_counts q by (rule refl)
  show "canFormWord toLowerCase [] p"
    by (simp add: canFormWord_def toLowerCase_def)
qed

theorem canFormWord_characterised_witness:
  "lettersSuffice toLowerCase ''Cat'' ''SCRATEPIOB''
   \<and> canFormWord toLowerCase ''Cat'' (map (\<lambda>c. [c]) ''SCRATEPIOB'')
   \<and> \<not> lettersSuffice toLowerCase ''EERIE'' ''SCRATEPIOB''
   \<and> \<not> canFormWord toLowerCase ''EERIE'' (map (\<lambda>c. [c]) ''SCRATEPIOB'')
   \<and> canFormWord toLowerCase [] (map (\<lambda>c. [c]) ''SCRATEPIOB'')
   \<and> canFormWord toLowerCase [CHR 0xC9] [[CHR 0xE9]]"
proof -
  have h: "\<forall>s. toLowerCase s = map toLowerCase_char s"
    by (simp add: toLowerCase_def)
  have s1: "lettersSuffice toLowerCase ''Cat'' ''SCRATEPIOB''"
    by code_simp
  have s2: "\<not> lettersSuffice toLowerCase ''EERIE'' ''SCRATEPIOB''"
    by code_simp
  from canFormWord_characterised
         [of toLowerCase "''Cat''" "[]" toLowerCase_char "''SCRATEPIOB''"] h s1
  have c1: "canFormWord toLowerCase ''Cat'' (map (\<lambda>c. [c]) ''SCRATEPIOB'')"
    by blast
  from canFormWord_characterised
         [of toLowerCase "''EERIE''" "map (\<lambda>c. [c]) ''SCRATEPIOB''" toLowerCase_char
             "''SCRATEPIOB''"] h s2
  have c2: "\<not> canFormWord toLowerCase ''EERIE'' (map (\<lambda>c. [c]) ''SCRATEPIOB'')"
    and c3: "canFormWord toLowerCase [] (map (\<lambda>c. [c]) ''SCRATEPIOB'')"
    by blast+
  have c4: "canFormWord toLowerCase [CHR 0xC9] [[CHR 0xE9]]"
    by code_simp
  from s1 c1 s2 c2 c3 c4 show ?thesis by blast
qed

section \<open>The round state under submissions\<close>

lemma calculateWordScore_pos: "0 < calculateWordScore w"
  by (simp add: score_by_length)

text \<open>What a submission returns: the state as it was, or the state with a word that was
  in neither set added to the invalid words or to the found words.\<close>

lemma handleSubmitWord_result:
  "handleSubmitWord dict wordInput gs = (out, ui, gs') \<Longrightarrow>
     (out \<in> {NotActive, NoInputElement, TooShort, AlreadyFound, AlreadyInvalid} \<and> gs' = gs)
     \<or> (\<exists>word. out \<in> {CannotForm, NotInDictionary} \<and> word \<notin> set (foundWords gs)
           \<and> word \<notin> set (invalidWords gs) \<and> gs' = addInvalidWord word gs)
     \<or> (\<exists>word. out = WordValid (calculateWordScore word) \<and> word \<notin> set (foundWords gs)
           \<and> word \<notin> set (invalidWords gs) \<and> gs' = addFoundWord word gs)"
  unfolding handleSubmitWord_def Let_def hasFoundWord_def hasInvalidWord_def Set_has_def
  by (auto split: if_splits option.splits)

lemma round_inv_reset: "round_inv reset"
  by (simp add: round_inv_def reset_def)

lemma round_inv_addInvalidWord:
  "round_inv gs \<Longrightarrow> word \<notin> set (foundWords gs) \<Longrightarrow> round_inv (addInvalidWord word gs)"
  by (auto simp: round_inv_def addInvalidWord_def Set_add_def)

lemma round_inv_addFoundWord:
  "round_inv gs \<Longrightarrow> word \<notin> set (foundWords gs) \<Longrightarrow> word \<notin> set (invalidWords gs)
     \<Longrightarrow> round_inv (addFoundWord word gs)"
  by (auto simp: round_inv_def addFoundWord_def Set_add_def)

lemma round_inv_handleSubmitWord:
  assumes "round_inv gs"
  shows "round_inv (snd (snd (handleSubmitWord dict wordInput gs)))"
proof -
  obtain out ui gs' where r: "handleSubmitWord dict wordInput gs = (out, ui, gs')"
    by (metis prod_cases3)
  from handleSubmitWord_result [OF r] assms have "round_inv gs'"
    by (auto intro: round_inv_addInvalidWord round_inv_addFoundWord)
  with r show ?thesis by simp
qed

lemma round_inv_step: "round_inv gs \<Longrightarrow> round_inv (round_step gs ev)"
proof (cases ev)
  case (Submit dict wordInput)
  assume "round_inv gs"
  then show ?thesis
    unfolding Submit round_step.simps by (rule round_inv_handleSubmitWord)
qed (simp_all add: round_inv_def reset_def game_startGame_def startGame_def endGame_def
       shuffleLetters_def)

lemma round_inv_foldl: "round_inv gs \<Longrightarrow> round_inv (foldl round_step gs evs)"
  by (induction evs arbitrary: gs) (simp_all add: round_inv_step)

lemma round_inv_run: "round_inv (round_run evs)"
  unfolding round_run_def by (rule round_inv_foldl [OF round_inv_reset])

lemma demoRound_state: "round_run demoRound = demoState"
  by code_simp

text \<open>
  Claim C5. In every round state reached from \<open>reset\<close> by selecting a character, starting
  a game, shuffling, timer ticks, ending the game and submissions, the score is the sum,
  over the words of the found-words set, of the score of each word.
\<close>

theorem score_is_sum_of_found:
  "score (round_run evs) = (\<Sum>w \<in> set (foundWords (round_run evs)). calculateWordScore w)"
  using round_inv_run [of evs] by (simp add: round_inv_def sum_list_distinct_conv_sum_set)

theorem score_is_sum_of_found_witness:
  "foundWords (round_run demoRound) = [''inn'', ''in'']
   \<and> score (round_run demoRound) = 3
   \<and> (\<Sum>w \<in> set (foundWords (round_run demoRound)). calculateWordScore w) = 3"
proof -
  have s: "score (round_run demoRound) = 3"
    by (simp add: demoRound_state demoState_def)
  have f: "foundWords (round_run demoRound) = [''inn'', ''in'']"
    by (simp add: demoRound_state demoState_def)
  from score_is_sum_of_found [of demoRound] s
  have "(\<Sum>w \<in> set (foundWords (round_run demoRound)). calculateWordScore w) = 3"
    by (simp only:)
  with s f show ?thesis by blast
qed

text \<open>
  Claim C6. In every such round state no word is both in the found-words set and in the
  invalid-words set.
\<close>

theorem found_invalid_disjoint:
  "set (foundWords (round_run evs)) \<inter> set (invalidWords (round_run evs)) = {}"
  using round_inv_run [of evs] by (simp add: round_inv_def)

theorem found_invalid_disjoint_witness:
  "foundWords (round_run demoRound) = [''inn'', ''in'']
   \<and> invalidWords (round_run demoRound) = [''zz'', ''nn'']
   \<and> set (foundWords (round_run demoRound)) \<inter> set (invalidWords (round_run demoRound)) = {}"
proof -
  have f: "foundWords (round_run demoRound) = [''inn'', ''in'']"
    by (simp add: demoRound_state demoState_def)
  have i: "invalidWords (round_run demoRound) = [''zz'', ''nn'']"
    by (simp add: demoRound_state demoState_def)
  from f i found_invalid_disjoint [of demoRound] show ?thesis by blast
qed

text \<open>
  Claim C9. A submission rejected as too short, already found or already invalid returns
  the round state unchanged (found words, invalid words, score and every other field);
  for the first two the word is only shown in the on-screen list of invalid words. So
  does a submission outside an active round or without an input element. The outcomes
  that change the state are: cannot-form and not-in-dictionary, which add the word to
  the invalid words and leave found words and score alone, and success, which adds the
  word to the found words and its points, a positive number, to the score.
\<close>

theorem submission_frame:
  "handleSubmitWord dict wordInput gs = (out, ui, gs') \<Longrightarrow>
     (out = TooShort \<or> out = AlreadyFound \<or> out = AlreadyInvalid \<longrightarrow> gs' = gs)
     \<and> (out = NotActive \<or> out = NoInputElement \<longrightarrow> gs' = gs)
     \<and> (out = CannotForm \<or> out = NotInDictionary \<longrightarrow>
          invalidWords gs' \<noteq> invalidWords gs \<and> foundWords gs' = foundWords gs
          \<and> score gs' = score gs)
     \<and> (\<forall>points. out = WordValid points \<longrightarrow>
          foundWords gs' \<noteq> foundWords gs \<and> score gs' = score gs + points \<and> 0 < points
          \<and> invalidWords gs' = invalidWords gs)"
  using handleSubmitWord_result [of dict wordInput gs out ui gs'] calculateWordScore_pos
  by (auto simp: addInvalidWord_def addFoundWord_def Set_add_def)

theorem submission_frame_witness:
  "handleSubmitWord demoDictionary (Some ''i'') demoState
     = (TooShort, [UiAddInvalidWord ''i''], demoState)
   \<and> handleSubmitWord demoDictionary (Some ''INN'') demoState
     = (AlreadyFound, [UiAddInvalidWord ''inn''], demoState)
   \<and> handleSubmitWord demoDictionary (Some ''zz'') demoState
     = (AlreadyInvalid, [], demoState)
   \<and> fst (handleSubmitWord demoDictionary (Some ''ni'') demoState) = NotInDictionary
   \<and> invalidWords (snd (snd (handleSubmitWord demoDictionary (Some ''ni'') demoState)))
       \<noteq> invalidWords demoState"
proof -
  let ?r = "\<lambda>input. handleSubmitWord demoDictionary (Some input) demoState"
  have e: "?r input = (fst (?r input), fst (snd (?r input)), snd (snd (?r input)))" for input
    by simp
  have o1: "fst (?r ''i'') = TooShort" and u1: "fst (snd (?r ''i'')) = [UiAddInvalidWord ''i'']"
    by code_simp+
  have o2: "fst (?r ''INN'') = AlreadyFound"
    and u2: "fst (snd (?r ''INN'')) = [UiAddInvalidWord ''inn'']"
    by code_simp+
  have o3: "fst (?r ''zz'') = AlreadyInvalid" and u3: "fst (snd (?r ''zz'')) = []"
    by code_simp+
  have o4: "fst (?r ''ni'') = NotInDictionary"
    by code_simp
  from submission_frame [OF e [of "''i''"]] o1 have s1: "snd (snd (?r ''i'')) = demoState"
    by blast
  from submission_frame [OF e [of "''INN''"]] o2 have s2: "snd (snd (?r ''INN'')) = demoState"
    by blast
  from submission_frame [OF e [of "''zz''"]] o3 have s3: "snd (snd (?r ''zz'')) = demoState"
    by blast
  from submission_frame [OF e [of "''ni''"]] o4
  have s4: "invalidWords (snd (snd (?r ''ni''))) \<noteq> invalidWords demoState"
    by blast
  from o1 u1 s1 have "?r ''i'' = (TooShort, [UiAddInvalidWord ''i''], demoState)"
    by (metis e)
  moreover from o2 u2 s2 have "?r ''INN'' = (AlreadyFound, [UiAddInvalidWord ''inn''], demoState)"
    by (metis e)
  moreover from o3 u3 s3 have "?r ''zz'' = (AlreadyInvalid, [], demoState)"
    by (metis e)
  ultimately show ?thesis using o4 s4 by blast
qed

section \<open>The countdown clock\<close>

lemma isWholeNumber_Ints: "isWholeNumber x \<longleftrightarrow> x \<in> \<int>"
proof
  assume "isWholeNumber x"
  then have "of_int \<lfloor>x\<rfloor> = x" unfolding isWholeNumber_def .
  then show "x \<in> \<int>" by (metis Ints_of_int)
next
  assume "x \<in> \<int>"
  then show "isWholeNumber x"
    by (auto simp: isWholeNumber_def elim!: Ints_cases)
qed

lemma whole_positive: "x \<in> \<int> \<Longrightarrow> 0 < x \<Longrightarrow> 1 \<le> (x::rat)"
  by (auto elim!: Ints_cases)

lemma timer_inv_new: "timer_inv GameTimer_new"
  by (simp add: timer_inv_def GameTimer_new_def isWholeNumber_def MAX_SAFE_INTEGER_def)

lemma timer_inv_step:
  assumes "timer_inv t" "admissible t ev"
  shows "timer_inv (timer_step t ev)"
proof (cases ev)
  case Second
  show ?thesis
  proof (cases "interval t = None \<or> isPaused t")
    case True
    then have "timer_step t ev = t"
      by (auto simp: Second intervalFires_def)
    with assms(1) show ?thesis by simp
  next
    case False
    let ?n = "timerTimeLeft t - 1"
    from assms(1) False have w: "?n \<in> \<int>" and n0: "0 \<le> ?n" and nm: "?n \<le> MAX_SAFE_INTEGER"
      and c: "list_all tickNonNegative (calls t)"
      by (auto simp: timer_inv_def isWholeNumber_Ints)
    have ge1: "1 \<le> ?n" if "\<not> ?n \<le> 0"
      using whole_positive [OF w] that by simp
    from False w n0 nm c ge1 show ?thesis
      by (auto simp: Second intervalFires_def Let_def stop_def timer_inv_def isWholeNumber_Ints)
  qed
next
  case (Start duration)
  with assms show ?thesis
    by (auto simp: timer_inv_def isWholeNumber_Ints start_def stop_def)
next
  case (AddTime seconds)
  with assms show ?thesis
    by (auto simp: timer_inv_def isWholeNumber_Ints addTime_def)
qed (use assms in \<open>auto simp: timer_inv_def stop_def pause_def resume_def\<close>)

lemma timer_inv_run:
  "timer_inv t \<Longrightarrow> admissibleRun t evs \<Longrightarrow> timer_inv (timer_run t evs)"
  unfolding timer_run_def
  by (induction evs arbitrary: t) (simp_all add: timer_inv_step)

text \<open>The callbacks of one run: ticks, then at most one completion, which stops the clock.\<close>

lemma run_shape_step:
  assumes "\<not> isStart ev"
    and "\<exists>ticks. calls t = c0 @ map OnTick ticks
           \<or> (calls t = c0 @ map OnTick ticks @ [OnComplete] \<and> interval t = None)"
  shows "\<exists>ticks. calls (timer_step t ev) = c0 @ map OnTick ticks
           \<or> (calls (timer_step t ev) = c0 @ map OnTick ticks @ [OnComplete]
               \<and> interval (timer_step t ev) = None)"
proof (cases ev)
  case Second
  from assms(2) obtain ticks where
    t: "calls t = c0 @ map OnTick ticks
        \<or> (calls t = c0 @ map OnTick ticks @ [OnComplete] \<and> interval t = None)"
    by blast
  show ?thesis
  proof (cases "interval t = None \<or> isPaused t")
    case True
    then have "timer_step t ev = t"
      by (auto simp: Second intervalFires_def)
    with assms(2) show ?thesis by simp
  next
    case False
    with t have c: "calls t = c0 @ map OnTick ticks" by auto
    let ?n = "timerTimeLeft t - 1"
    show ?thesis
    proof (cases "?n \<le> 0")
      case True
      with False c have "calls (timer_step t ev) = c0 @ map OnTick (ticks @ [?n]) @ [OnComplete]
          \<and> interval (timer_step t ev) = None"
        by (simp add: Second intervalFires_def Let_def stop_def)
      then show ?thesis by blast
    next
      case n: False
      with False c have "calls (timer_step t ev) = c0 @ map OnTick (ticks @ [?n])"
        by (simp add: Second intervalFires_def Let_def stop_def)
      then show ?thesis by blast
    qed
  qed
qed (use assms in \<open>auto simp: stop_def pause_def resume_def addTime_def\<close>)

lemma run_shape:
  assumes "\<forall>ev \<in> set evs. \<not> isStart ev"
    and "\<exists>ticks. calls t = c0 @ map OnTick ticks
           \<or> (calls t = c0 @ map OnTick ticks @ [OnComplete] \<and> interval t = None)"
  shows "\<exists>ticks. calls (timer_run t evs) = c0 @ map OnTick ticks
           \<or> (calls (timer_run t evs) = c0 @ map OnTick ticks @ [OnComplete]
               \<and> interval (timer_run t evs) = None)"
  using assms unfolding timer_run_def
proof (induction evs arbitrary: t)
  case Nil
  then show ?case by simp
next
  case (Cons ev evs)
  from Cons.prems have "\<not> isStart ev" by simp
  from run_shape_step [OF this Cons.prems(2)] Cons.prems(1) Cons.IH [of "timer_step t ev"]
  show ?case by simp
qed

lemma stopped_stays:
  "interval t = None \<Longrightarrow> \<forall>ev \<in> set evs. \<not> isStart ev \<Longrightarrow>
     calls (timer_run t evs) = calls t \<and> interval (timer_run t evs) = None"
  unfolding timer_run_def
proof (induction evs arbitrary: t)
  case Nil
  then show ?case by simp
next
  case (Cons ev evs)
  from Cons.prems have "calls (timer_step t ev) = calls t \<and> interval (timer_step t ev) = None"
    by (cases ev) (simp_all add: stop_def pause_def resume_def addTime_def intervalFires_def)
  with Cons.IH [of "timer_step t ev"] Cons.prems show ?case by simp
qed

lemma timer_run_Suc_Second:
  "timer_run t (replicate (Suc n) Second) = intervalFires (timer_run t (replicate n Second))"
proof -
  have "replicate (Suc n) Second = replicate n Second @ [Second]"
    by (simp add: replicate_append_same)
  then show ?thesis
    by (simp only: timer_run_def foldl_append foldl.simps timer_step.simps)
qed

lemma countdown_prefix:
  "of_nat n < d \<Longrightarrow>
     timer_run (start d t) (replicate n Second) =
       (stop t)\<lparr> timerTimeLeft := d - of_nat n, isPaused := False, interval := Some (),
                calls := calls t @ map (\<lambda>i. OnTick (d - 1 - of_nat i)) [0..<n] \<rparr>"
proof (induction n)
  case 0
  show ?case by (simp add: timer_run_def start_def stop_def)
next
  case (Suc n)
  then have "timer_run (start d t) (replicate n Second) =
       (stop t)\<lparr> timerTimeLeft := d - of_nat n, isPaused := False, interval := Some (),
                calls := calls t @ map (\<lambda>i. OnTick (d - 1 - of_nat i)) [0..<n] \<rparr>"
    by simp
  moreover have "timer_run (start d t) (replicate (Suc n) Second) =
      intervalFires (timer_run (start d t) (replicate n Second))"
    by (rule timer_run_Suc_Second)
  ultimately show ?case
    using Suc.prems by (simp add: intervalFires_def Let_def stop_def algebra_simps)
qed

lemma countdown_completes:
  assumes "isWholeNumber d" "1 \<le> d"
  shows "timer_run (start d t) (replicate (nat \<lfloor>d\<rfloor>) Second) =
       (stop t)\<lparr> timerTimeLeft := 0, isPaused := False, interval := None,
                calls := calls t @ map (\<lambda>i. OnTick (d - 1 - of_nat i)) [0..<nat \<lfloor>d\<rfloor>]
                           @ [OnComplete] \<rparr>"
proof -
  from assms(1) have "of_int \<lfloor>d\<rfloor> = d" unfolding isWholeNumber_def .
  then have dk: "d = of_int \<lfloor>d\<rfloor>" by (rule sym)
  from assms(2) have "1 \<le> \<lfloor>d\<rfloor>" by simp
  then obtain n where n: "nat \<lfloor>d\<rfloor> = Suc n" by (cases "nat \<lfloor>d\<rfloor>") auto
  then have "\<lfloor>d\<rfloor> = int n + 1" by linarith
  with dk have d: "d = of_nat n + 1" by (metis of_int_add of_int_of_nat_eq of_int_1)
  have "timer_run (start d t) (replicate (Suc n) Second) =
      intervalFires (timer_run (start d t) (replicate n Second))"
    by (rule timer_run_Suc_Second)
  also have "timer_run (start d t) (replicate n Second) =
       (stop t)\<lparr> timerTimeLeft := d - of_nat n, isPaused := False, interval := Some (),
                calls := calls t @ map (\<lambda>i. OnTick (d - 1 - of_nat i)) [0..<n] \<rparr>"
    by (rule countdown_prefix) (simp add: d)
  finally show ?thesis
    unfolding n by (simp add: intervalFires_def Let_def stop_def d)
qed

text \<open>
  Claim C4, as stated, fails: a clock started with duration 0 reports the remaining value
  \<open>-1\<close> on its first tick, and then completes; and a clock started with one and a half
  seconds reports \<open>1/2\<close> and then \<open>-1/2\<close> before it completes.
\<close>

theorem zero_duration_goes_negative:
  "timerTimeLeft (timer_run GameTimer_new [Start 0, Second]) = - 1
   \<and> calls (timer_run GameTimer_new [Start 0, Second]) = [OnTick (- 1), OnComplete]
   \<and> calls (timer_run GameTimer_new [Start (3 / 2), Second, Second])
       = [OnTick (1 / 2), OnTick (- (1 / 2)), OnComplete]"
  by (simp add: timer_run_def GameTimer_new_def start_def stop_def intervalFires_def Let_def)

text \<open>
  Claim C4, amended. (1) On a clock that is only started with a whole number of seconds
  from 1 to \<open>2^53 - 1\<close>, and to which \<open>addTime\<close> only adds whole numbers of seconds that are
  not negative and keep the remaining value at most \<open>2^53 - 1\<close>, the remaining value is
  never negative, neither in the clock nor in a tick callback, and a clock whose
  interval is still set has at least one second left, so the clock is stopped when zero
  is reached. (2) In every run the callbacks issued from the start up to the next start
  are tick callbacks followed by at most one completion callback, and after the
  completion callback the interval is cleared. (3) A clock whose interval is cleared
  issues no callback until it is started again. (4) A clock started with a whole number
  \<open>d\<close> of seconds from 1 to \<open>2^53 - 1\<close> and left to tick \<open>d\<close> times reports
  \<open>d - 1, ..., 0\<close>, then completes once, and is stopped with zero seconds left.
\<close>

theorem countdown_clock:
  "(admissibleRun GameTimer_new evs \<longrightarrow>
      0 \<le> timerTimeLeft (timer_run GameTimer_new evs)
      \<and> (\<forall>n. OnTick n \<in> set (calls (timer_run GameTimer_new evs)) \<longrightarrow> 0 \<le> n)
      \<and> (interval (timer_run GameTimer_new evs) \<noteq> None
           \<longrightarrow> 1 \<le> timerTimeLeft (timer_run GameTimer_new evs)))
   \<and> ((\<forall>ev \<in> set evs. \<not> isStart ev) \<longrightarrow>
        (\<exists>ticks. calls (timer_run (start d t) evs) = calls t @ map OnTick ticks
           \<or> (calls (timer_run (start d t) evs) = calls t @ map OnTick ticks @ [OnComplete]
               \<and> interval (timer_run (start d t) evs) = None)))
   \<and> (interval t = None \<and> (\<forall>ev \<in> set evs. \<not> isStart ev) \<longrightarrow>
        calls (timer_run t evs) = calls t \<and> interval (timer_run t evs) = None)
   \<and> (isWholeNumber d \<and> 1 \<le> d \<and> d \<le> MAX_SAFE_INTEGER \<longrightarrow>
        calls (timer_run (start d t) (replicate (nat \<lfloor>d\<rfloor>) Second))
          = calls t @ map (\<lambda>i. OnTick (d - 1 - of_nat i)) [0..<nat \<lfloor>d\<rfloor>] @ [OnComplete]
        \<and> interval (timer_run (start d t) (replicate (nat \<lfloor>d\<rfloor>) Second)) = None
        \<and> timerTimeLeft (timer_run (start d t) (replicate (nat \<lfloor>d\<rfloor>) Second)) = 0)"
proof (intro conjI impI)
  assume "admissibleRun GameTimer_new evs"
  then have i: "timer_inv (timer_run GameTimer_new evs)"
    by (rule timer_inv_run [OF timer_inv_new])
  from i show "0 \<le> timerTimeLeft (timer_run GameTimer_new evs)"
    by (simp add: timer_inv_def)
  from i have "\<forall>c \<in> set (calls (timer_run GameTimer_new evs)). tickNonNegative c"
    by (simp add: timer_inv_def list_all_iff)
  then show "\<forall>n. OnTick n \<in> set (calls (timer_run GameTimer_new evs)) \<longrightarrow> 0 \<le> n"
    by fastforce
  assume "interval (timer_run GameTimer_new evs) \<noteq> None"
  with i show "1 \<le> timerTimeLeft (timer_run GameTimer_new evs)"
    by (simp add: timer_inv_def)
next
  assume n: "\<forall>ev \<in> set evs. \<not> isStart ev"
  have "\<exists>ticks. calls (start d t) = calls t @ map OnTick ticks
          \<or> (calls (start d t) = calls t @ map OnTick ticks @ [OnComplete]
              \<and> interval (start d t) = None)"
    by (rule exI [of _ "[]"]) (simp add: start_def stop_def)
  from run_shape [OF n this]
  show "\<exists>ticks. calls (timer_run (start d t) evs) = calls t @ map OnTick ticks
           \<or> (calls (timer_run (start d t) evs) = calls t @ map OnTick ticks @ [OnComplete]
               \<and> interval (timer_run (start d t) evs) = None)" .
next
  assume a: "interval t = None \<and> (\<forall>ev \<in> set evs. \<not> isStart ev)"
  then have "calls (timer_run t evs) = calls t \<and> interval (timer_run t evs) = None"
    by (intro stopped_stays) simp_all
  then show "calls (timer_run t evs) = calls t" and "interval (timer_run t evs) = None"
    by simp_all
next
  assume "isWholeNumber d \<and> 1 \<le> d \<and> d \<le> MAX_SAFE_INTEGER"
  then have w: "isWholeNumber d" and d: "1 \<le> d" by simp_all
  show "calls (timer_run (start d t) (replicate (nat \<lfloor>d\<rfloor>) Second))
          = calls t @ map (\<lambda>i. OnTick (d - 1 - of_nat i)) [0..<nat \<lfloor>d\<rfloor>] @ [OnComplete]"
    and "interval (timer_run (start d t) (replicate (nat \<lfloor>d\<rfloor>) Second)) = None"
    and "timerTimeLeft (timer_run (start d t) (replicate (nat \<lfloor>d\<rfloor>) Second)) = 0"
    unfolding countdown_completes [OF w d] by (simp_all add: stop_def)
qed

theorem countdown_clock_witness:
  "calls (timer_run (start 5 GameTimer_new) (replicate (nat \<lfloor>5::rat\<rfloor>) Second))
     = [OnTick 4, OnTick 3, OnTick 2, OnTick 1, OnTick 0, OnComplete]
   \<and> interval (timer_run (start 5 GameTimer_new) (replicate (nat \<lfloor>5::rat\<rfloor>) Second)) = None
   \<and> timerTimeLeft (timer_run (start 5 GameTimer_new) (replicate (nat \<lfloor>5::rat\<rfloor>) Second)) = 0
   \<and> calls (timer_run (timer_run (start 5 GameTimer_new) (replicate (nat \<lfloor>5::rat\<rfloor>) Second))
             [Second, AddTime 3, Second, Second])
     = [OnTick 4, OnTick 3, OnTick 2, OnTick 1, OnTick 0, OnComplete]
   \<and> admissibleRun GameTimer_new [Start 2, Second, Pause, Second, Resume, AddTime 1, Second]
   \<and> 0 \<le> timerTimeLeft
            (timer_run GameTimer_new [Start 2, Second, Pause, Second, Resume, AddTime 1, Second])"
proof -
  let ?finished = "timer_run (start 5 GameTimer_new) (replicate (nat \<lfloor>5::rat\<rfloor>) Second)"
  let ?later = "[Second, AddTime 3, Second, Second]"
  let ?mixed = "[Start 2, Second, Pause, Second, Resume, AddTime 1, Second]"
  have d: "isWholeNumber 5 \<and> 1 \<le> (5::rat) \<and> 5 \<le> MAX_SAFE_INTEGER"
    by (simp add: isWholeNumber_def MAX_SAFE_INTEGER_def)
  have ticks: "calls GameTimer_new
        @ map (\<lambda>i. OnTick (5 - 1 - of_nat i)) [0..<nat \<lfloor>5::rat\<rfloor>] @ [OnComplete]
      = [OnTick 4, OnTick 3, OnTick 2, OnTick 1, OnTick 0, OnComplete]"
    by code_simp
  from countdown_clock [of "[]" 5 GameTimer_new] d
  have c: "calls ?finished
             = calls GameTimer_new
                 @ map (\<lambda>i. OnTick (5 - 1 - of_nat i)) [0..<nat \<lfloor>5::rat\<rfloor>] @ [OnComplete]"
    and i: "interval ?finished = None" and z: "timerTimeLeft ?finished = 0"
    by blast+
  have s: "\<forall>ev \<in> set ?later. \<not> isStart ev" by simp
  from countdown_clock [of ?later 5 ?finished] i s
  have l: "calls (timer_run ?finished ?later) = calls ?finished" by blast
  have a: "admissibleRun GameTimer_new ?mixed" by code_simp
  from countdown_clock [of ?mixed 5 GameTimer_new] a
  have m: "0 \<le> timerTimeLeft (timer_run GameTimer_new ?mixed)" by blast
  from c i z l a m show ?thesis
    unfolding ticks by simp
qed

section \<open>Generating and shuffling the letters\<close>

lemma randomIndex_less:
  assumes "0 \<le> r" "r < 1" "0 < n"
  shows "randomIndex r n < n"
proof -
  have "r * of_nat n < of_nat n"
    using assms by simp
  then have "\<lfloor>r * of_nat n\<rfloor> < int n"
    by (simp add: floor_less_iff)
  moreover have "0 \<le> \<lfloor>r * of_nat n\<rfloor>"
    using assms by simp
  ultimately show ?thesis
    unfolding randomIndex_def by linarith
qed

lemma pushLetters_appends:
  assumes "\<forall>k. 0 \<le> rnd k \<and> rnd k < 1" "pool \<noteq> []"
  shows "\<exists>new. pushLetters pool rnd k n letters = letters @ new
           \<and> length new = n \<and> set new \<subseteq> set pool"
proof (induction n arbitrary: k letters)
  case 0
  show ?case by simp
next
  case (Suc n)
  let ?c = "pool ! randomIndex (rnd k) (length pool)"
  have "randomIndex (rnd k) (length pool) < length pool"
    using assms by (intro randomIndex_less) simp_all
  then have c: "?c \<in> set pool" by simp
  from Suc.IH [of "Suc k" "letters @ [?c]"] obtain new where
    new: "pushLetters pool rnd (Suc k) n (letters @ [?c]) = (letters @ [?c]) @ new"
      "length new = n" "set new \<subseteq> set pool"
    by blast
  have "pushLetters pool rnd k (Suc n) letters = letters @ (?c # new)"
    using new(1) by (simp add: Let_def)
  moreover have "length (?c # new) = Suc n" using new(2) by simp
  moreover have "set (?c # new) \<subseteq> set pool" using new(3) c by simp
  ultimately show ?case by blast
qed

lemma shuffleLoop_permutes:
  assumes "\<forall>k. 0 \<le> rnd k \<and> rnd k < 1"
  shows "i < length xs \<Longrightarrow> mset (shuffleLoop rnd k i xs) = mset xs"
proof (induction i arbitrary: k xs)
  case 0
  show ?case by simp
next
  case (Suc i)
  let ?j = "randomIndex (rnd k) (Suc i + 1)"
  let ?ys = "xs[Suc i := xs ! ?j, ?j := xs ! Suc i]"
  have "?j < Suc i + 1"
    using assms by (intro randomIndex_less) simp_all
  with Suc.prems have j: "?j < length xs" by simp
  have m: "mset ?ys = mset xs"
    using mset_swap [OF j Suc.prems] .
  then have "length ?ys = length xs" by simp
  with Suc.prems have "i < length ?ys" by simp
  from Suc.IH [OF this, of "Suc k"] m show ?case
    by (simp add: Let_def)
qed

lemma shuffleArray_permutes:
  assumes "\<forall>k. 0 \<le> rnd k \<and> rnd k < 1"
  shows "mset (shuffleArray rnd k xs) = mset xs"
proof (cases xs)
  case Nil
  then show ?thesis by (simp add: shuffleArray_def)
next
  case (Cons x xs')
  then have "length xs - 1 < length xs" by simp
  from shuffleLoop_permutes [OF assms this] show ?thesis
    by (simp add: shuffleArray_def)
qed

lemma pools_disjoint: "set VOWEL_POOL \<inter> set CONSONANT_POOL = {}"
  by (simp add: VOWEL_POOL_def CONSONANT_POOL_def)

lemma filter_disjoint_append:
  assumes "set vs \<subseteq> A" "set cs \<subseteq> B" "A \<inter> B = {}"
  shows "filter (\<lambda>c. c \<in> A) (vs @ cs) = vs" and "filter (\<lambda>c. c \<in> B) (vs @ cs) = cs"
proof -
  have "filter (\<lambda>c. c \<in> A) vs = vs" "filter (\<lambda>c. c \<in> B) cs = cs"
    using assms by (auto intro!: filter_True)
  moreover have "filter (\<lambda>c. c \<in> A) cs = []" "filter (\<lambda>c. c \<in> B) vs = []"
    using assms by (auto intro!: filter_False)
  ultimately show "filter (\<lambda>c. c \<in> A) (vs @ cs) = vs" and "filter (\<lambda>c. c \<in> B) (vs @ cs) = cs"
    by simp_all
qed

lemma length_filter_mset_eq:
  "mset xs = mset ys \<Longrightarrow> length (filter P xs) = length (filter P ys)"
  by (metis mset_filter size_mset)

text \<open>
  Claim C8. With every value of \<open>Math.random()\<close> in the interval from 0 (included) to 1
  (excluded), the generated pool has \<open>NUM_LETTERS = 10\<close> letters; it is a rearrangement of
  4 letters of the vowel alphabet followed by \<open>NUM_LETTERS - 4\<close> letters of the consonant
  alphabet, so it holds exactly 4 vowels and 6 consonants; and \<open>shuffleArray\<close> returns a
  permutation of its argument: the same letters as a multiset, and the same length.
\<close>

theorem generate_pool:
  assumes "\<forall>k. 0 \<le> rnd k \<and> rnd k < 1"
  shows "NUM_LETTERS = 10
   \<and> length (generate rnd) = NUM_LETTERS
   \<and> (\<exists>vowels consonants.
         length vowels = 4 \<and> set vowels \<subseteq> set VOWEL_POOL
         \<and> length consonants = NUM_LETTERS - 4 \<and> set consonants \<subseteq> set CONSONANT_POOL
         \<and> mset (generate rnd) = mset (vowels @ consonants))
   \<and> length (filter (\<lambda>c. c \<in> set VOWEL_POOL) (generate rnd)) = 4
   \<and> length (filter (\<lambda>c. c \<in> set CONSONANT_POOL) (generate rnd)) = NUM_LETTERS - 4
   \<and> mset (shuffleArray rnd k array) = mset array
   \<and> length (shuffleArray rnd k array) = length array"
proof -
  obtain vowels where v: "pushLetters VOWEL_POOL rnd 0 4 [] = [] @ vowels"
      "length vowels = 4" "set vowels \<subseteq> set VOWEL_POOL"
    using pushLetters_appends [OF assms, of VOWEL_POOL 0 4 "[]"]
    by (auto simp: VOWEL_POOL_def)
  obtain consonants where c:
      "pushLetters CONSONANT_POOL rnd 4 (NUM_LETTERS - 4) vowels = vowels @ consonants"
      "length consonants = NUM_LETTERS - 4" "set consonants \<subseteq> set CONSONANT_POOL"
    using pushLetters_appends [OF assms, of CONSONANT_POOL 4 "NUM_LETTERS - 4" vowels]
    by (auto simp: CONSONANT_POOL_def)
  have g: "generate rnd = shuffleArray rnd (4 + (NUM_LETTERS - 4)) (vowels @ consonants)"
    using v(1) c(1) by (simp add: generate_def Let_def)
  have m: "mset (generate rnd) = mset (vowels @ consonants)"
    unfolding g by (rule shuffleArray_permutes [OF assms])
  have n: "NUM_LETTERS = 10" by (simp add: NUM_LETTERS_def)
  have "size (mset (generate rnd)) = size (mset (vowels @ consonants))"
    by (simp only: m)
  then have l: "length (generate rnd) = NUM_LETTERS"
    using v(2) c(2) by (simp add: n)
  have fv: "filter (\<lambda>c. c \<in> set VOWEL_POOL) (vowels @ consonants) = vowels"
    by (rule filter_disjoint_append(1) [OF v(3) c(3) pools_disjoint])
  have fc: "filter (\<lambda>c. c \<in> set CONSONANT_POOL) (vowels @ consonants) = consonants"
    by (rule filter_disjoint_append(2) [OF v(3) c(3) pools_disjoint])
  have cv: "length (filter (\<lambda>c. c \<in> set VOWEL_POOL) (generate rnd)) = 4"
    using length_filter_mset_eq [OF m, of "\<lambda>c. c \<in> set VOWEL_POOL"] v(2) by (simp only: fv)
  have cc: "length (filter (\<lambda>c. c \<in> set CONSONANT_POOL) (generate rnd)) = NUM_LETTERS - 4"
    using length_filter_mset_eq [OF m, of "\<lambda>c. c \<in> set CONSONANT_POOL"] c(2) by (simp only: fc)
  have s: "mset (shuffleArray rnd k array) = mset array"
    by (rule shuffleArray_permutes [OF assms])
  then have "size (mset (shuffleArray rnd k array)) = size (mset array)"
    by (simp only:)
  then have sl: "length (shuffleArray rnd k array) = length array"
    by simp
  from v(2,3) c(2,3) m have "\<exists>vowels consonants.
         length vowels = 4 \<and> set vowels \<subseteq> set VOWEL_POOL
         \<and> length consonants = NUM_LETTERS - 4 \<and> set consonants \<subseteq> set CONSONANT_POOL
         \<and> mset (generate rnd) = mset (vowels @ consonants)"
    by blast
  with n l cv cc s sl show ?thesis by blast
qed


theorem generate_pool_witness:
  "(0::rat) \<le> 1 / 2 \<and> (1 / 2 :: rat) < 1
   \<and> generate (\<lambda>k. 1 / 2) = ''ININININNN''
   \<and> length (generate (\<lambda>k. 1 / 2)) = NUM_LETTERS
   \<and> length (filter (\<lambda>c. c \<in> set VOWEL_POOL) (generate (\<lambda>k. 1 / 2))) = 4
   \<and> length (filter (\<lambda>c. c \<in> set CONSONANT_POOL) (generate (\<lambda>k. 1 / 2))) = NUM_LETTERS - 4
   \<and> mset (shuffleArray (\<lambda>k. 1 / 2) 0 ''RUNES'') = mset ''RUNES''"
proof -
  have h: "\<forall>k::nat. (0::rat) \<le> 1 / 2 \<and> (1 / 2 :: rat) < 1" by simp
  have g: "generate (\<lambda>k. 1 / 2) = ''ININININNN''" by code_simp
  from generate_pool [OF h, of 0 "''RUNES''"] g h show ?thesis by blast
qed

section \<open>Loading the dictionary\<close>

lemma loadFallbackDictionary_fields:
  "words (dictionary (loadFallbackDictionary w)) = Set_new fallbackWords"
  "isLoaded (dictionary (loadFallbackDictionary w)) = True"
  "loadPromise (dictionary (loadFallbackDictionary w)) = loadPromise (dictionary w)"
  "logged (loadFallbackDictionary w) = logged w @ [(info, ''Using fallback dictionary'')]"
  by (simp_all add: loadFallbackDictionary_def Logger_def)

lemma loadDictionary_both_fail:
  assumes "fst (loadFromCache env w) = None"
    and "fst (loadFromNetwork env (snd (loadFromCache env w))) = Inl e"
  shows "loadDictionary env w =
           (Inl e, loadFallbackDictionary
                     (Logger error ''Error loading dictionary:''
                        (snd (loadFromNetwork env (snd (loadFromCache env w))))))"
proof -
  obtain w1 where c: "loadFromCache env w = (None, w1)"
    using assms(1) by (cases "loadFromCache env w") simp
  obtain w2 where n: "loadFromNetwork env w1 = (Inl e, w2)"
    using assms(2) c by (cases "loadFromNetwork env w1") simp
  show ?thesis
    by (simp add: loadDictionary_def c n)
qed

text \<open>
  Claim C1, amended. When the dictionary has not been loaded before, the cache check
  returns nothing and the network fetch fails with an error, \<open>load\<close> logs the error, loads
  the built-in fallback list and marks the dictionary loaded, and then rethrows: the
  promise of \<open>load\<close> is rejected with that error and stays memoised as rejected, so a
  second \<open>load\<close> is rejected with it too. The caller \<open>preloadDictionary\<close> catches the
  rejection and ends with the fallback dictionary loaded.
\<close>

theorem load_failure_rethrown:
  assumes "loadPromise (dictionary w) = None"
    and "fst (loadFromCache env w) = None"
    and "fst (loadFromNetwork env (snd (loadFromCache env w))) = Inl e"
  shows "fst (load env w) = Inl e
   \<and> loadPromise (dictionary (snd (load env w))) = Some (Inl e)
   \<and> words (dictionary (snd (load env w))) = Set_new fallbackWords
   \<and> isLoaded (dictionary (snd (load env w))) = True
   \<and> (error, ''Error loading dictionary:'') \<in> set (logged (snd (load env w)))
   \<and> fst (load env (snd (load env w))) = Inl e
   \<and> words (dictionary (preloadDictionary env w)) = Set_new fallbackWords
   \<and> isLoaded (dictionary (preloadDictionary env w)) = True"
proof -
  let ?w2 = "snd (loadFromNetwork env (snd (loadFromCache env w)))"
  let ?w3 = "loadFallbackDictionary (Logger error ''Error loading dictionary:'' ?w2)"
  have l: "load env w = (Inl e, ?w3\<lparr> dictionary := (dictionary ?w3)\<lparr> loadPromise := Some (Inl e) \<rparr> \<rparr>)"
    by (simp add: load_def assms(1) loadDictionary_both_fail [OF assms(2,3)])
  have p: "preloadDictionary env w =
      loadFallbackDictionary
        (Logger warn ''Dictionary preload failed, using fallback dictionary:'' (snd (load env w)))"
    by (simp add: preloadDictionary_def l)
  show ?thesis
    unfolding p loadFallbackDictionary_fields
    unfolding l
    by (simp add: loadFallbackDictionary_fields load_def)
       (simp add: loadFallbackDictionary_def Logger_def)
qed

text \<open>
  Claim C1, as stated, fails: with no cache entry and a rejected fetch, both the cache
  check and the network fetch fail, and \<open>load\<close> ends with the error, not with success.
\<close>

theorem load_offline_rejects:
  "fst (loadFromCache offlineEnv freshWorld) = None
   \<and> fst (loadFromNetwork offlineEnv (snd (loadFromCache offlineEnv freshWorld))) = Inl FetchError
   \<and> fst (load offlineEnv freshWorld) = Inl FetchError
   \<and> fst (load offlineEnv freshWorld) \<noteq> Inr ()"
  by (simp add: offlineEnv_def freshWorld_def Dictionary_new_def load_def loadDictionary_def
        loadFromCache_def loadFromNetwork_def Logger_def Let_def)

theorem load_failure_rethrown_witness:
  "loadPromise (dictionary freshWorld) = None
   \<and> fst (loadFromCache offlineEnv freshWorld) = None
   \<and> fst (loadFromNetwork offlineEnv (snd (loadFromCache offlineEnv freshWorld))) = Inl FetchError
   \<and> fst (load offlineEnv freshWorld) = Inl FetchError
   \<and> isLoaded (dictionary (snd (load offlineEnv freshWorld))) = True
   \<and> words (dictionary (snd (load offlineEnv freshWorld))) = fallbackWords
   \<and> isLoaded (dictionary (preloadDictionary offlineEnv freshWorld)) = True"
proof -
  have h1: "loadPromise (dictionary freshWorld) = None"
    by (simp add: freshWorld_def Dictionary_new_def)
  have h2: "fst (loadFromCache offlineEnv freshWorld) = None"
    by (simp add: loadFromCache_def freshWorld_def)
  have h3: "fst (loadFromNetwork offlineEnv (snd (loadFromCache offlineEnv freshWorld)))
              = Inl FetchError"
    by (simp add: loadFromCache_def loadFromNetwork_def freshWorld_def offlineEnv_def Let_def)
  have f: "Set_new fallbackWords = fallbackWords"
    by code_simp
  from load_failure_rethrown [OF h1 h2 h3] h1 h2 h3 show ?thesis
    unfolding f by blast
qed

end
